theory Spec2Isabelle
  imports Complex_Main "HOL-Library.Multiset"
begin

section \<open>Data model of \<open>src/App.tsx\<close>\<close>

text \<open>
  A JavaScript string is modelled as a \<open>string\<close>, one \<open>char\<close> per UTF-16 code unit
  (every literal of the source lies in the Latin-1 range, so \<open>CHR 0xE1\<close> is the one code
  unit of a-acute). An optional field (\<open>notes?\<close>, \<open>questionToAnswer?\<close>) is an \<open>option\<close>:
  \<open>None\<close> is \<open>undefined\<close>. The field \<open>notes\<close> is written \<open>notes'\<close> and \<open>id\<close> is written
  \<open>id'\<close>, the plain names being taken.
\<close>

type_synonym uid = string

datatype ApplicationStatus = pending_bot | applied | needs_input | failed

datatype Platform = LinkedIn | Glassdoor | Gupy | Infojobs

text \<open>The data of one document of the \<open>applications\<close> collection: the fields of the
  object literal \<open>newJob\<close>. The store keeps the document id beside it.\<close>

record JobDoc =
  company :: string
  role :: string
  platform :: Platform
  date :: string
  status :: ApplicationStatus
  questionToAnswer :: "string option"
  notes' :: "string option"
  timestamp :: "nat option"

text \<open>\<open>interface JobApplication\<close>: a document together with its id, as the snapshot
  listener builds it (\<open>{ id: doc.id, ...doc.data() }\<close>).\<close>

record JobApplication = JobDoc +
  id' :: string

definition withId :: "string \<Rightarrow> JobDoc \<Rightarrow> JobApplication" where
  "withId i d =
     \<lparr>company = company d, role = role d, platform = platform d, date = date d,
      status = status d, questionToAnswer = questionToAnswer d, notes' = notes' d,
      timestamp = timestamp d, id' = i\<rparr>"

record UserProfile =
  fullName :: string
  email :: string
  linkedinUrl :: string
  bio :: string
  experience :: string
  skills :: string

section \<open>The generation step of the bot (body of the interval callback)\<close>

text \<open>
  The numbers of the source are IEEE 754 doubles. A double is modelled by the real number
  it denotes; an operation that rounds is the exact operation followed by \<open>toDouble\<close>,
  the rounding to the nearest double, ties to the even significand: 53 significant bits,
  least exponent \<open>-1022\<close> (below it the spacing stays \<open>2 powi -1074\<close>). Overflow is not
  modelled, since no number rounded here reaches 8. Comparison and \<open>Math.floor\<close> are
  exact on doubles.
\<close>

text \<open>The integer nearest to \<open>y\<close>, the even one of two equally near.\<close>

definition rne :: "real \<Rightarrow> int" where
  "rne y =
     (let f = \<lfloor>y\<rfloor>; d = y - of_int f
      in if d < 1 / 2 then f else if 1 / 2 < d then f + 1 else if even f then f else f + 1)"

text \<open>The exponent \<open>e\<close> of the binade \<open>2 powi e \<le> |x| < 2 powi (e + 1)\<close> of \<open>x\<close>, kept
  within \<open>-1022 .. 1023\<close>; it is searched downwards from \<open>-1\<close> or upwards from \<open>0\<close>.\<close>

function down :: "int \<Rightarrow> real \<Rightarrow> int" where
  "down e x = (if e \<le> - 1022 \<or> 2 powi e \<le> x then e else down (e - 1) x)"
  by pat_completeness auto
termination
  by (relation "measure (\<lambda>(e, x). nat (e + 1022))") auto

function up :: "int \<Rightarrow> real \<Rightarrow> int" where
  "up e x = (if 1023 \<le> e \<or> x < 2 powi (e + 1) then e else up (e + 1) x)"
  by pat_completeness auto
termination
  by (relation "measure (\<lambda>(e, x). nat (1023 - e))") auto

declare down.simps [simp del] up.simps [simp del]

definition exponentOf :: "real \<Rightarrow> int" where
  "exponentOf x = (if 1 \<le> \<bar>x\<bar> then up 0 \<bar>x\<bar> else down (- 1) \<bar>x\<bar>)"

text \<open>The distance between neighbouring doubles in the binade of \<open>x\<close>.\<close>

definition ulp :: "real \<Rightarrow> real" where
  "ulp x = 2 powi (exponentOf x - 52)"

definition toDouble :: "real \<Rightarrow> real" where
  "toDouble x = of_int (rne (x / ulp x)) * ulp x"

text \<open>
  \<open>Math.random()\<close> returns a double \<open>r\<close> with \<open>0 \<le> r < 1\<close>; the type \<open>draw\<close> holds
  exactly these values. \<open>draw_of r\<close> is the draw that the double nearest to \<open>r\<close> is
  (and \<open>0\<close> when that is no draw).
\<close>

typedef draw = "{r::real. 0 \<le> r \<and> r < 1 \<and> toDouble r = r}"
  by (rule exI [of _ 0]) (simp add: toDouble_def rne_def)

setup_lifting type_definition_draw

lift_definition draw_of :: "real \<Rightarrow> draw"
  is "\<lambda>r. let d = toDouble r in if 0 \<le> d \<and> d < 1 \<and> toDouble d = d then d else 0"
  by (simp add: Let_def toDouble_def rne_def)

definition companies :: "string list" where
  "companies = [''TechCorp'', ''InovaSoft'', ''DataSystems'', ''CloudWalk'', ''BankOne'']"

definition roles :: "string list" where
  "roles = [''Dev Python Jr'', ''QA Automation'', ''Frontend React'',
            ''Fullstack Engineer'', ''Data Analyst'']"

definition platforms :: "Platform list" where
  "platforms = [LinkedIn, Gupy, Glassdoor, Infojobs]"

text \<open>\<open>xs[Math.floor(Math.random() * xs.length)]\<close>: the product is rounded to a double
  before the floor is taken.\<close>

definition pickIndex :: "nat \<Rightarrow> draw \<Rightarrow> nat" where
  "pickIndex n u = nat \<lfloor>toDouble (Rep_draw u * real n)\<rfloor>"

definition pick :: "'a list \<Rightarrow> draw \<Rightarrow> 'a" where
  "pick xs u = xs ! pickIndex (length xs) u"

definition promptQuestion :: string where
  "promptQuestion = ''Por que voc'' @ [CHR 0xEA] @ '' quer trabalhar nesta empresa?''"

definition timeoutNote :: string where
  "timeoutNote = ''Erro de timeout no seletor CSS''"

text \<open>The three variables \<open>status\<close>, \<open>question\<close>, \<open>notes\<close> after the \<open>if\<close> chain on
  \<open>rand\<close>, in this order. A literal of the source stands for the double nearest to it.\<close>

definition classify :: "real \<Rightarrow> ApplicationStatus \<times> string option \<times> string option" where
  "classify rand =
     (if rand < toDouble 0.2 then (needs_input, Some promptQuestion, None)
      else if rand < toDouble 0.3 then (failed, None, Some timeoutNote)
      else if rand < toDouble 0.5 then (pending_bot, None, None)
      else (applied, None, None))"

text \<open>What one tick reads from outside the program: four calls of \<open>Math.random()\<close>, the
  clock (\<open>new Date().toISOString()\<close>), and what the store answers to \<open>addDoc\<close> (whether
  the write is accepted, the id and the server time it assigns).\<close>

record tick_input =
  rCompany :: draw
  rRole :: draw
  rPlatform :: draw
  rand :: draw
  now :: string
  writeOk :: bool
  newId :: string
  serverTime :: nat

definition newJob :: "tick_input \<Rightarrow> JobDoc" where
  "newJob i =
     (case classify (Rep_draw (rand i)) of (st, question, nts) \<Rightarrow>
        \<lparr>company = pick companies (rCompany i),
         role = pick roles (rRole i),
         platform = pick platforms (rPlatform i),
         date = now i,
         status = st,
         questionToAnswer = question,
         notes' = nts,
         timestamp = None\<rparr>)"

section \<open>The component, the browser and the backend as one state\<close>

text \<open>
  The handlers of \<open>App\<close> read and write three things: the component's own state (the
  \<open>useState\<close> cells and the ref \<open>botIntervalRef\<close>), the browser (timers, \<open>alert\<close>,
  \<open>console.error\<close>, \<open>window.location.reload\<close>) and the backend (the identity provider
  and the document store). The record \<open>world\<close> holds all three, and a handler is a
  function from worlds to worlds. Each handler runs on the state of the latest render;
  the view-only cell \<open>activeTab\<close> is left out. The backend is configured
  (\<open>isFirebaseAvailable\<close>): without it no handler below can be reached.

  The backend is not part of the repository. What is assumed of it is what the spec's
  section on external interfaces lists: a profile document and an \<open>applications\<close>
  collection per identity, a full-document write, a partial update of an existing
  document, a creation with an id and a server time assigned by the store, and an
  anonymous sign-in. Whether a call succeeds is decided outside the program and is an
  argument of the model.
\<close>

datatype error = StoreError | AuthError

text \<open>A registered timer callback. \<open>BotTick cu\<close> is the interval callback of
  \<open>toggleBot\<close>, closed over the value \<open>cu\<close> that \<open>user\<close> had in the render that created
  it; \<open>EnterDone\<close> is the timeout callback of \<open>handleLogin\<close>.\<close>

datatype callback = BotTick "uid option" | EnterDone

record world =
  user :: "uid option"
  authLoading :: bool
  loginLoading :: bool
  hasEntered :: bool
  isBotRunning :: bool
  profile :: UserProfile
  applications :: "JobApplication list"
  botIntervalRef :: "nat option"
  timers :: "(nat \<times> callback) list"
  nextTimer :: nat
  alerts :: "string list"
  console :: "(string \<times> error) list"
  reloadRequested :: bool
  currentUser :: "uid option"
  identities :: "uid list"
  profileDocs :: "uid \<Rightarrow> UserProfile option"
  appDocs :: "uid \<Rightarrow> (string \<times> JobDoc) list"
  writes :: nat

text \<open>A settled promise: fulfilled, or rejected with an error. Both carry the world the
  call left behind.\<close>

datatype settled = Fulfilled world | Rejected error world

subsection \<open>Browser\<close>

text \<open>\<open>setInterval\<close> and \<open>setTimeout\<close> register a callback under a fresh positive
  handle; \<open>clearInterval\<close> removes the timer with that handle, if there is one.\<close>

definition setTimer :: "callback \<Rightarrow> world \<Rightarrow> nat \<times> world" where
  "setTimer cb w =
     (nextTimer w, w\<lparr>timers := timers w @ [(nextTimer w, cb)], nextTimer := Suc (nextTimer w)\<rparr>)"

definition clearInterval :: "nat \<Rightarrow> world \<Rightarrow> world" where
  "clearInterval h w = w\<lparr>timers := filter (\<lambda>t. fst t \<noteq> h) (timers w)\<rparr>"

definition alert :: "string \<Rightarrow> world \<Rightarrow> world" where
  "alert msg w = w\<lparr>alerts := alerts w @ [msg]\<rparr>"

definition console_error :: "string \<Rightarrow> error \<Rightarrow> world \<Rightarrow> world" where
  "console_error msg e w = w\<lparr>console := console w @ [(msg, e)]\<rparr>"

subsection \<open>Backend\<close>

text \<open>Modelled from the spec: the identity provider and the document store are external
  services, of which the repository holds only the calls. A successful sign-in
  establishes the identity the provider answers with; the model lets every such call
  establish one, so that what is proved about reuse comes from the guard of
  \<open>handleLogin\<close> and not from the provider. Every call on the store counts as one
  attempted write, accepted or not.\<close>

definition signInAnonymously :: "error + uid \<Rightarrow> world \<Rightarrow> settled" where
  "signInAnonymously res w =
     (case res of
        Inl e \<Rightarrow> Rejected e w
      | Inr u \<Rightarrow> Fulfilled (w\<lparr>currentUser := Some u, identities := identities w @ [u]\<rparr>))"

definition setDoc :: "bool \<Rightarrow> uid \<Rightarrow> UserProfile \<Rightarrow> world \<Rightarrow> settled" where
  "setDoc ok u p w =
     (let w1 = w\<lparr>writes := Suc (writes w)\<rparr>
      in if ok then Fulfilled (w1\<lparr>profileDocs := (profileDocs w1)(u := Some p)\<rparr>)
         else Rejected StoreError w1)"

definition addDoc :: "bool \<Rightarrow> string \<Rightarrow> nat \<Rightarrow> uid \<Rightarrow> JobDoc \<Rightarrow> world \<Rightarrow> settled" where
  "addDoc ok i t u d w =
     (let w1 = w\<lparr>writes := Suc (writes w)\<rparr>
      in if ok
         then Fulfilled (w1\<lparr>appDocs := (appDocs w1)(u := appDocs w1 u @ [(i, d\<lparr>timestamp := Some t\<rparr>)])\<rparr>)
         else Rejected StoreError w1)"

text \<open>\<open>updateDoc\<close> changes the named fields of an existing document and is rejected when
  there is no document with that id.\<close>

definition updateDoc :: "bool \<Rightarrow> uid \<Rightarrow> string \<Rightarrow> (JobDoc \<Rightarrow> JobDoc) \<Rightarrow> world \<Rightarrow> settled" where
  "updateDoc ok u i f w =
     (let w1 = w\<lparr>writes := Suc (writes w)\<rparr>
      in if ok \<and> i \<in> fst ` set (appDocs w1 u)
         then Fulfilled (w1\<lparr>appDocs := (appDocs w1)
                 (u := map (\<lambda>(j, d). if j = i then (j, f d) else (j, d)) (appDocs w1 u))\<rparr>)
         else Rejected StoreError w1)"

section \<open>The handlers of \<open>App\<close>\<close>

subsection \<open>Session\<close>

text \<open>The listener given to \<open>onAuthStateChanged\<close>.\<close>

definition authListener :: "uid option \<Rightarrow> world \<Rightarrow> world" where
  "authListener cu w =
     (let w1 = w\<lparr>user := cu\<rparr>
      in if cu = None then w1\<lparr>isBotRunning := False\<rparr> else w1)"

text \<open>The provider delivering its current identity to the listener.\<close>

definition authStateChanged :: "world \<Rightarrow> world" where
  "authStateChanged w = authListener (currentUser w) w"

definition initAuth :: "error + uid \<Rightarrow> world \<Rightarrow> world" where
  "initAuth res w =
     (case signInAnonymously res w of
        Fulfilled w1 \<Rightarrow> w1\<lparr>authLoading := False\<rparr>
      | Rejected e w1 \<Rightarrow> (console_error ''Auth error:'' e w1)\<lparr>authLoading := False\<rparr>)"

text \<open>\<open>handleLogin\<close> has no \<open>try\<close>: a rejected sign-in rejects the handler's own promise
  and the timeout is never set.\<close>

definition handleLogin :: "error + uid \<Rightarrow> world \<Rightarrow> settled" where
  "handleLogin res w =
     (let w1 = w\<lparr>loginLoading := True\<rparr>
      in case (if currentUser w1 = None then signInAnonymously res w1 else Fulfilled w1) of
           Rejected e w2 \<Rightarrow> Rejected e w2
         | Fulfilled w2 \<Rightarrow> Fulfilled (snd (setTimer EnterDone w2)))"

text \<open>\<open>window.location.reload()\<close> asks the browser to load the page again and returns;
  the page, with its timers, lives on until the browser tears it down
  (\<open>pageTeardown\<close>), and a timer that falls due before that still fires.\<close>

definition handleLogout :: "world \<Rightarrow> world" where
  "handleLogout w = w\<lparr>isBotRunning := False, reloadRequested := True\<rparr>"

definition pageTeardown :: "world \<Rightarrow> world" where
  "pageTeardown w =
     w\<lparr>user := None, authLoading := True, loginLoading := False, hasEntered := False,
       isBotRunning := False,
       profile := \<lparr>fullName = [], email = [], linkedinUrl = [], bio = [],
                   experience = [], skills = []\<rparr>,
       applications := [], botIntervalRef := None, timers := [], reloadRequested := False\<rparr>"

datatype screen = Spinner | LoginScreen | Shell

definition render :: "world \<Rightarrow> screen" where
  "render w =
     (if authLoading w then Spinner
      else if user w = None \<or> \<not> hasEntered w then LoginScreen
      else Shell)"

subsection \<open>Snapshot listeners\<close>

definition defaultProfile :: UserProfile where
  "defaultProfile =
     \<lparr>fullName = ''Novo Usu'' @ [CHR 0xE1] @ ''rio'', email = [], linkedinUrl = [],
      bio = [], experience = [], skills = []\<rparr>"

definition onProfileSnapshot :: "UserProfile option \<Rightarrow> world \<Rightarrow> world" where
  "onProfileSnapshot docSnap w =
     (case docSnap of
        Some p \<Rightarrow> w\<lparr>profile := p\<rparr>
      | None \<Rightarrow> w\<lparr>profile := defaultProfile\<rparr>)"

text \<open>The subscription of the second effect delivering the profile document of the
  current user; the effect does nothing without a user.\<close>

definition observeProfile :: "world \<Rightarrow> world" where
  "observeProfile w =
     (case user w of None \<Rightarrow> w | Some u \<Rightarrow> onProfileSnapshot (profileDocs w u) w)"

text \<open>
  \<open>new Date(s).getTime()\<close> is a function of the built-in \<open>Date\<close>, taken as a parameter
  \<open>getTime\<close>: the milliseconds of the instant that \<open>s\<close> denotes, or \<open>None\<close> for the
  \<open>NaN\<close> of an invalid date. The comparator subtracts two such numbers, and \<open>NaN\<close> minus
  anything is \<open>NaN\<close>. The difference of two instants is an integer, taken here exactly;
  the sort reads only its sign, which rounding to a double keeps.
\<close>

definition byDateDesc :: "(string \<Rightarrow> int option) \<Rightarrow> JobApplication \<Rightarrow> JobApplication \<Rightarrow> int option" where
  "byDateDesc getTime a b =
     (case (getTime (date b), getTime (date a)) of
        (Some tb, Some ta) \<Rightarrow> Some (tb - ta)
      | _ \<Rightarrow> None)"

text \<open>
  \<open>Array.prototype.sort\<close> with a comparator: the language reads a \<open>NaN\<close> result as
  \<open>0\<close> and promises a stable sort. The stable insertion sort below is one such sort:
  an element moves behind another only when the comparator puts it strictly after.
\<close>

definition sortCompare :: "('a \<Rightarrow> 'a \<Rightarrow> int option) \<Rightarrow> 'a \<Rightarrow> 'a \<Rightarrow> int" where
  "sortCompare cmp x y = (case cmp x y of None \<Rightarrow> 0 | Some v \<Rightarrow> v)"

fun insertBy :: "('a \<Rightarrow> 'a \<Rightarrow> int option) \<Rightarrow> 'a \<Rightarrow> 'a list \<Rightarrow> 'a list" where
  "insertBy cmp x [] = [x]"
| "insertBy cmp x (y # ys) =
     (if sortCompare cmp x y \<le> 0 then x # y # ys else y # insertBy cmp x ys)"

fun array_sort :: "('a \<Rightarrow> 'a \<Rightarrow> int option) \<Rightarrow> 'a list \<Rightarrow> 'a list" where
  "array_sort cmp [] = []"
| "array_sort cmp (x # xs) = insertBy cmp x (array_sort cmp xs)"

definition onAppsSnapshot :: "(string \<Rightarrow> int option) \<Rightarrow> (string \<times> JobDoc) list \<Rightarrow> world \<Rightarrow> world" where
  "onAppsSnapshot getTime docs w =
     (let apps = map (\<lambda>(i, d). withId i d) docs
      in w\<lparr>applications := array_sort (byDateDesc getTime) apps\<rparr>)"

subsection \<open>Mutations\<close>

definition saveProfile :: "bool \<Rightarrow> world \<Rightarrow> world" where
  "saveProfile ok w =
     (case user w of
        None \<Rightarrow> w
      | Some u \<Rightarrow>
          (case setDoc ok u (profile w) w of
             Fulfilled w1 \<Rightarrow> alert ''Perfil salvo com sucesso na nuvem!'' w1
           | Rejected e w1 \<Rightarrow>
               alert ''Erro ao salvar perfil. Verifique as chaves do Firebase.''
                 (console_error [] e w1)))"

text \<open>\<open>responseText.substring(0, 30)\<close> is the first 30 code units, or the whole text
  when it is shorter.\<close>

definition manualNote :: "string \<Rightarrow> string" where
  "manualNote responseText =
     ''Respondido manualmente: '' @ [CHR 0x22] @ take 30 responseText @ ''...'' @ [CHR 0x22]"

definition manualUpdate :: "string \<Rightarrow> JobDoc \<Rightarrow> JobDoc" where
  "manualUpdate responseText d =
     d\<lparr>status := applied, questionToAnswer := Some [], notes' := Some (manualNote responseText)\<rparr>"

definition handleManualResponse :: "bool \<Rightarrow> string \<Rightarrow> string \<Rightarrow> world \<Rightarrow> world" where
  "handleManualResponse ok appIdTarget responseText w =
     (case user w of
        None \<Rightarrow> w
      | Some u \<Rightarrow>
          (case updateDoc ok u appIdTarget (manualUpdate responseText) w of
             Fulfilled w1 \<Rightarrow> w1
           | Rejected e w1 \<Rightarrow> console_error [] e w1))"

subsection \<open>The bot\<close>

text \<open>The interval callback, for the \<open>user\<close> it closed over.\<close>

definition botTick :: "uid option \<Rightarrow> tick_input \<Rightarrow> world \<Rightarrow> world" where
  "botTick cu i w =
     (case cu of
        None \<Rightarrow> w
      | Some u \<Rightarrow>
          (case addDoc (writeOk i) (newId i) (serverTime i) u (newJob i) w of
             Fulfilled w1 \<Rightarrow> w1
           | Rejected e w1 \<Rightarrow> console_error ''Bot error writing to DB'' e w1))"

text \<open>\<open>if (botIntervalRef.current) clearInterval(botIntervalRef.current)\<close>: \<open>null\<close> and
  \<open>0\<close> are falsy.\<close>

definition clearBotInterval :: "world \<Rightarrow> world" where
  "clearBotInterval w =
     (case botIntervalRef w of
        None \<Rightarrow> w
      | Some h \<Rightarrow> if h \<noteq> 0 then clearInterval h w else w)"

definition toggleBot :: "world \<Rightarrow> world" where
  "toggleBot w =
     (if isBotRunning w then clearBotInterval (w\<lparr>isBotRunning := False\<rparr>)
      else (case setTimer (BotTick (user w)) (w\<lparr>isBotRunning := True\<rparr>) of
              (h, w1) \<Rightarrow> w1\<lparr>botIntervalRef := Some h\<rparr>))"

text \<open>The cleanup of the third effect, run when the component is unmounted.\<close>

definition unmountCleanup :: "world \<Rightarrow> world" where
  "unmountCleanup w = clearBotInterval w"

text \<open>The browser running the callback registered under handle \<open>h\<close>. A handle with no
  timer runs nothing; a timeout is removed once it has run, an interval stays.\<close>

definition fire :: "nat \<Rightarrow> tick_input \<Rightarrow> world \<Rightarrow> world" where
  "fire h i w =
     (case map_of (timers w) h of
        None \<Rightarrow> w
      | Some (BotTick cu) \<Rightarrow> botTick cu i w
      | Some EnterDone \<Rightarrow> (clearInterval h w)\<lparr>loginLoading := False, hasEntered := True\<rparr>)"

text \<open>The world when the component has just been mounted: the initial values of the
  state cells, no timer, and whatever the backend holds.\<close>

definition mounted :: "uid option \<Rightarrow> (uid \<Rightarrow> UserProfile option) \<Rightarrow> (uid \<Rightarrow> (string \<times> JobDoc) list) \<Rightarrow> world" where
  "mounted cu ps ds =
     \<lparr>user = None, authLoading = True, loginLoading = False, hasEntered = False,
      isBotRunning = False,
      profile = \<lparr>fullName = [], email = [], linkedinUrl = [], bio = [],
                  experience = [], skills = []\<rparr>,
      applications = [], botIntervalRef = None, timers = [], nextTimer = 1,
      alerts = [], console = [], reloadRequested = False,
      currentUser = cu, identities = [], profileDocs = ps, appDocs = ds, writes = 0\<rparr>"

section \<open>Vocabulary of the properties\<close>

text \<open>A document carries a question when the field is defined and not the empty string,
  the reading the source itself makes of an optional text (\<open>app.notes || '-'\<close>).\<close>

definition hasQuestion :: "'a JobDoc_scheme \<Rightarrow> bool" where
  "hasQuestion d = (case questionToAnswer d of None \<Rightarrow> False | Some q \<Rightarrow> q \<noteq> [])"

definition questionOnlyWhenNeeded :: "(string \<times> JobDoc) list \<Rightarrow> bool" where
  "questionOnlyWhenNeeded ds = list_all (\<lambda>(i, d). hasQuestion d \<longrightarrow> status d = needs_input) ds"

text \<open>The handles of the registered interval callbacks of the bot.\<close>

fun isBotTick :: "callback \<Rightarrow> bool" where
  "isBotTick (BotTick cu) = True"
| "isBotTick EnterDone = False"

definition botTimers :: "world \<Rightarrow> nat list" where
  "botTimers w = map fst (filter (\<lambda>t. isBotTick (snd t)) (timers w))"

text \<open>The scheduler is in order when a running bot has exactly one interval, the one
  the ref holds, and a stopped bot has none.\<close>

definition schedulerOk :: "world \<Rightarrow> bool" where
  "schedulerOk w \<longleftrightarrow>
     0 < nextTimer w \<and>
     (if isBotRunning w
      then (case botIntervalRef w of None \<Rightarrow> False | Some h \<Rightarrow> h \<noteq> 0 \<and> botTimers w = [h])
      else botTimers w = [])"

text \<open>The browser running a sequence of timer callbacks, each with what it reads from
  outside.\<close>

fun fires :: "(nat \<times> tick_input) list \<Rightarrow> world \<Rightarrow> world" where
  "fires [] w = w"
| "fires ((h, i) # es) w = fires es (fire h i w)"

fun worldOf :: "settled \<Rightarrow> world" where
  "worldOf (Fulfilled w) = w"
| "worldOf (Rejected e w) = w"

fun isFulfilled :: "settled \<Rightarrow> bool" where
  "isFulfilled (Fulfilled w) = True"
| "isFulfilled (Rejected e w) = False"

text \<open>Every handle in use was handed out before the next one.\<close>

definition timersFresh :: "world \<Rightarrow> bool" where
  "timersFresh w = list_all (\<lambda>t. fst t < nextTimer w) (timers w)"

text \<open>The key the comparator sorts by when the dates are valid: the instant, negated.\<close>

definition dateKey :: "(string \<Rightarrow> int option) \<Rightarrow> JobApplication \<Rightarrow> int" where
  "dateKey getTime a = (case getTime (date a) of None \<Rightarrow> 0 | Some t \<Rightarrow> - t)"

section \<open>Sample inputs\<close>

text \<open>A tick whose three picks draw the double nearest to \<open>u\<close>, whose status draw is the
  double nearest to \<open>r\<close> and whose write the store accepts or not.\<close>

definition sampleTick :: "real \<Rightarrow> real \<Rightarrow> bool \<Rightarrow> tick_input" where
  "sampleTick u r ok =
     \<lparr>rCompany = draw_of u, rRole = draw_of u, rPlatform = draw_of u, rand = draw_of r,
      now = ''2024-05-01T10:00:00.000Z'', writeOk = ok, newId = ''xyz789'', serverTime = 7\<rparr>"

text \<open>A user \<open>u1\<close> who has entered the shell, with one record awaiting an answer and one
  applied.\<close>

definition sampleDoc :: "ApplicationStatus \<Rightarrow> string option \<Rightarrow> JobDoc" where
  "sampleDoc st q =
     \<lparr>company = ''TechCorp'', role = ''QA Automation'', platform = Gupy,
      date = ''2024-05-01T10:00:00.000Z'', status = st, questionToAnswer = q,
      notes' = None, timestamp = Some 1\<rparr>"

definition sampleWorld :: world where
  "sampleWorld =
     (mounted (Some ''u1'') (\<lambda>u. None)
        ((\<lambda>u. [])(''u1'' := [(''abc123'', sampleDoc needs_input (Some promptQuestion)),
                              (''def456'', sampleDoc applied None)])))
     \<lparr>user := Some ''u1'', authLoading := False, hasEntered := True\<rparr>"

text \<open>The instants of three date strings, as \<open>Date\<close> gives them; any other string is
  taken as an invalid date.\<close>

definition sampleClock :: "string \<Rightarrow> int option" where
  "sampleClock = map_of
     [(''2024-05-01T10:00:00.000Z'', 1714557600000),
      (''2024-05-03T08:30:00.000Z'', 1714725000000),
      (''2024-04-28T17:45:10.000Z'', 1714326310000)]"

definition sampleDocs :: "(string \<times> JobDoc) list" where
  "sampleDocs =
     [(''a'', sampleDoc applied None),
      (''b'', (sampleDoc failed None)\<lparr>date := ''2024-05-03T08:30:00.000Z''\<rparr>),
      (''c'', sampleDoc pending_bot None),
      (''d'', (sampleDoc applied None)\<lparr>date := ''2024-04-28T17:45:10.000Z''\<rparr>)]"

section \<open>Properties of the generation step\<close>

subsection \<open>Rounding to a double\<close>

lemma rne_of_int [simp]: "rne (of_int m) = m"
  by (simp add: rne_def)


lemma rne_le: "y \<le> of_int m \<Longrightarrow> rne y \<le> m"
proof -
  assume a: "y \<le> of_int m"
  show ?thesis
  proof (cases "y = of_int m")
    case True then show ?thesis by simp
  next
    case False
    with a have "y < of_int m" by simp
    then have "\<lfloor>y\<rfloor> < m" by (simp add: floor_less_iff)
    then show ?thesis by (auto simp: rne_def Let_def)
  qed
qed


lemma down_bounds:
  "- 1022 \<le> e \<Longrightarrow> x < 2 powi (e + 1) \<Longrightarrow>
   - 1022 \<le> down e x \<and> down e x \<le> e \<and> x < 2 powi (down e x + 1)
   \<and> (2 powi (down e x) \<le> x \<or> down e x = - 1022)"
proof (induction e x rule: down.induct)
  case (1 e x)
  show ?case
  proof (cases "e \<le> - 1022 \<or> 2 powi e \<le> x")
    case True
    then show ?thesis using 1 by (subst (1 2 3 4 5) down.simps) auto
  next
    case False
    then have "x < 2 powi (e - 1 + 1)" by simp
    with 1 False have "- 1022 \<le> down (e - 1) x \<and> down (e - 1) x \<le> e - 1
        \<and> x < 2 powi (down (e - 1) x + 1)
        \<and> (2 powi (down (e - 1) x) \<le> x \<or> down (e - 1) x = - 1022)"
      by auto
    moreover have "down e x = down (e - 1) x"
      using False by (subst down.simps) simp
    ultimately show ?thesis by auto
  qed
qed

lemma up_bounds:
  "e \<le> 1023 \<Longrightarrow> 2 powi e \<le> x \<Longrightarrow>
   e \<le> up e x \<and> up e x \<le> 1023 \<and> 2 powi (up e x) \<le> x
   \<and> (x < 2 powi (up e x + 1) \<or> up e x = 1023)"
proof (induction e x rule: up.induct)
  case (1 e x)
  show ?case
  proof (cases "1023 \<le> e \<or> x < 2 powi (e + 1)")
    case True
    then show ?thesis using 1 by (subst (1 2 3 4 5) up.simps) auto
  next
    case False
    with 1 have "e + 1 \<le> up (e + 1) x \<and> up (e + 1) x \<le> 1023 \<and> 2 powi (up (e + 1) x) \<le> x
        \<and> (x < 2 powi (up (e + 1) x + 1) \<or> up (e + 1) x = 1023)"
      by auto
    moreover have "up e x = up (e + 1) x"
      using False by (subst up.simps) simp
    ultimately show ?thesis by auto
  qed
qed

lemma exponentOf_bounds:
  assumes "0 \<le> x"
  shows "- 1022 \<le> exponentOf x \<and> exponentOf x \<le> 1023
         \<and> (2 powi (exponentOf x) \<le> x \<or> exponentOf x = - 1022)
         \<and> (x < 2 powi (exponentOf x + 1) \<or> exponentOf x = 1023)"
proof (cases "1 \<le> x")
  case True
  then show ?thesis
    using up_bounds [of 0 x] assms by (simp add: exponentOf_def)
next
  case False
  then show ?thesis
    using down_bounds [of "- 1" x] assms by (auto simp: exponentOf_def)
qed

lemma powi_mono: "a \<le> b \<Longrightarrow> (2::real) powi a \<le> 2 powi b"
  by (rule power_int_increasing) simp_all

lemma powi_less_cancel: "(2::real) powi a < 2 powi b \<Longrightarrow> a < b"
  using powi_mono [of b a] by (cases "a < b") auto

lemma exponentOf_eqI:
  assumes "- 1022 \<le> e" "e \<le> 1023" "2 powi e \<le> x" "x < 2 powi (e + 1)"
  shows "exponentOf x = e"
proof -
  have pos: "0 \<le> x"
    using assms(3) by (meson less_eq_real_def order_trans zero_less_numeral zero_less_power_int)
  note b = exponentOf_bounds [OF pos]
  have "exponentOf x < e + 1"
  proof (cases "2 powi (exponentOf x) \<le> x")
    case True
    then have "(2::real) powi (exponentOf x) < 2 powi (e + 1)" using assms(4) by simp
    then show ?thesis by (rule powi_less_cancel)
  next
    case False
    with b have "exponentOf x = - 1022" by simp
    then show ?thesis using assms(1) by simp
  qed
  moreover have "e < exponentOf x + 1"
  proof (cases "x < 2 powi (exponentOf x + 1)")
    case True
    then have "(2::real) powi e < 2 powi (exponentOf x + 1)" using assms(3) by simp
    then show ?thesis by (rule powi_less_cancel)
  next
    case False
    with b have "exponentOf x = 1023" by simp
    then show ?thesis using assms(2) by simp
  qed
  ultimately show ?thesis by simp
qed




lemma rne_0 [simp]: "rne 0 = 0"
  using rne_of_int [of 0] by simp

lemma toDouble_0 [simp]: "toDouble 0 = 0"
  by (simp add: toDouble_def)


lemma ulp_power:
  "exponentOf x \<le> 52 \<Longrightarrow> ulp x = 1 / 2 ^ nat (52 - exponentOf x)"
proof -
  assume a: "exponentOf x \<le> 52"
  have "ulp x = 2 powi (- (52 - exponentOf x))"
    by (simp add: ulp_def)
  also have "\<dots> = 1 / 2 powi (52 - exponentOf x)"
    by (rule power_int_minus_divide)
  also have "(2::real) powi (52 - exponentOf x) = 2 ^ nat (52 - exponentOf x)"
    using a by (simp add: power_int_def)
  finally show ?thesis .
qed

lemma toDouble_power:
  "exponentOf x \<le> 52 \<Longrightarrow>
   toDouble x = of_int (rne (x * 2 ^ nat (52 - exponentOf x))) / 2 ^ nat (52 - exponentOf x)"
  by (simp add: toDouble_def ulp_power)








lemma toDouble_eval:
  assumes "- 1022 \<le> e" "e \<le> 52" "2 powi e \<le> x" "x < 2 powi (e + 1)"
  shows "toDouble x = of_int (rne (x * 2 ^ nat (52 - e))) / 2 ^ nat (52 - e)"
proof -
  have "exponentOf x = e"
    using assms by (intro exponentOf_eqI) simp_all
  then show ?thesis
    using toDouble_power [of x] assms(2) by simp
qed

lemma lit_02: "toDouble (1 / 5) = 3602879701896397 / 18014398509481984"
  using toDouble_eval [of "- 3" "1 / 5"] by (simp add: power_int_minus_divide rne_def Let_def)

lemma lit_03: "toDouble (3 / 10) = 5404319552844595 / 18014398509481984"
  using toDouble_eval [of "- 2" "3 / 10"] by (simp add: power_int_minus_divide rne_def Let_def)

lemma lit_05: "toDouble (1 / 2) = 1 / 2"
  using toDouble_eval [of "- 1" "1 / 2"] by (simp add: power_int_minus_divide rne_def Let_def)













lemma draw_of_eval:
  "toDouble r = d \<Longrightarrow> 0 \<le> d \<Longrightarrow> d < 1 \<Longrightarrow> toDouble d = d \<Longrightarrow> Rep_draw (draw_of r) = d"
  by (simp add: draw_of.rep_eq Let_def)



subsection \<open>The generated document\<close>




lemma newJob_fields:
  "company (newJob i) = pick companies (rCompany i)"
  "role (newJob i) = pick roles (rRole i)"
  "platform (newJob i) = pick platforms (rPlatform i)"
  "date (newJob i) = now i"
  "status (newJob i) = fst (classify (Rep_draw (rand i)))"
  "questionToAnswer (newJob i) = fst (snd (classify (Rep_draw (rand i))))"
  "notes' (newJob i) = snd (snd (classify (Rep_draw (rand i))))"
  "timestamp (newJob i) = None"
  by (simp_all add: newJob_def split: prod.splits)

lemma addDoc_ok:
  "addDoc True j t u d w =
     Fulfilled (w\<lparr>writes := Suc (writes w),
                 appDocs := (appDocs w)(u := appDocs w u @ [(j, d\<lparr>timestamp := Some t\<rparr>)])\<rparr>)"
  by (simp add: addDoc_def Let_def)

lemma addDoc_fail: "addDoc False j t u d w = Rejected StoreError (w\<lparr>writes := Suc (writes w)\<rparr>)"
  by (simp add: addDoc_def Let_def)

lemma sample_draws:
  "Rep_draw (draw_of (1 / 10)) = 3602879701896397 / 36028797018963968"
  "Rep_draw (draw_of (1 / 4)) = 1 / 4"
  "Rep_draw (draw_of (3 / 10)) = 5404319552844595 / 18014398509481984"
  "Rep_draw (draw_of (2 / 5)) = 3602879701896397 / 9007199254740992"
  "Rep_draw (draw_of (1 / 2)) = 1 / 2"
  "Rep_draw (draw_of (3 / 5)) = 5404319552844595 / 9007199254740992"
  "Rep_draw (draw_of (7 / 10)) = 3152519739159347 / 4503599627370496"
proof -
  have a0: "toDouble (1 / 10) = 3602879701896397 / 36028797018963968"
    using toDouble_eval [of "- 4" "1 / 10"] by (simp add: power_int_minus_divide rne_def Let_def)
  have b0: "toDouble (3602879701896397 / 36028797018963968) = 3602879701896397 / 36028797018963968"
    using toDouble_eval [of "- 4" "3602879701896397 / 36028797018963968"] by (simp add: power_int_minus_divide rne_def Let_def)
  show "Rep_draw (draw_of (1 / 10)) = 3602879701896397 / 36028797018963968"
    using draw_of_eval [OF a0 _ _ b0] by simp
  have a1: "toDouble (1 / 4) = 1 / 4"
    using toDouble_eval [of "- 2" "1 / 4"] by (simp add: power_int_minus_divide rne_def Let_def)
  have b1: "toDouble (1 / 4) = 1 / 4"
    using toDouble_eval [of "- 2" "1 / 4"] by (simp add: power_int_minus_divide rne_def Let_def)
  show "Rep_draw (draw_of (1 / 4)) = 1 / 4"
    using draw_of_eval [OF a1 _ _ b1] by simp
  have a2: "toDouble (3 / 10) = 5404319552844595 / 18014398509481984"
    using toDouble_eval [of "- 2" "3 / 10"] by (simp add: power_int_minus_divide rne_def Let_def)
  have b2: "toDouble (5404319552844595 / 18014398509481984) = 5404319552844595 / 18014398509481984"
    using toDouble_eval [of "- 2" "5404319552844595 / 18014398509481984"] by (simp add: power_int_minus_divide rne_def Let_def)
  show "Rep_draw (draw_of (3 / 10)) = 5404319552844595 / 18014398509481984"
    using draw_of_eval [OF a2 _ _ b2] by simp
  have a3: "toDouble (2 / 5) = 3602879701896397 / 9007199254740992"
    using toDouble_eval [of "- 2" "2 / 5"] by (simp add: power_int_minus_divide rne_def Let_def)
  have b3: "toDouble (3602879701896397 / 9007199254740992) = 3602879701896397 / 9007199254740992"
    using toDouble_eval [of "- 2" "3602879701896397 / 9007199254740992"] by (simp add: power_int_minus_divide rne_def Let_def)
  show "Rep_draw (draw_of (2 / 5)) = 3602879701896397 / 9007199254740992"
    using draw_of_eval [OF a3 _ _ b3] by simp
  have a4: "toDouble (1 / 2) = 1 / 2"
    using toDouble_eval [of "- 1" "1 / 2"] by (simp add: power_int_minus_divide rne_def Let_def)
  have b4: "toDouble (1 / 2) = 1 / 2"
    using toDouble_eval [of "- 1" "1 / 2"] by (simp add: power_int_minus_divide rne_def Let_def)
  show "Rep_draw (draw_of (1 / 2)) = 1 / 2"
    using draw_of_eval [OF a4 _ _ b4] by simp
  have a5: "toDouble (3 / 5) = 5404319552844595 / 9007199254740992"
    using toDouble_eval [of "- 1" "3 / 5"] by (simp add: power_int_minus_divide rne_def Let_def)
  have b5: "toDouble (5404319552844595 / 9007199254740992) = 5404319552844595 / 9007199254740992"
    using toDouble_eval [of "- 1" "5404319552844595 / 9007199254740992"] by (simp add: power_int_minus_divide rne_def Let_def)
  show "Rep_draw (draw_of (3 / 5)) = 5404319552844595 / 9007199254740992"
    using draw_of_eval [OF a5 _ _ b5] by simp
  have a6: "toDouble (7 / 10) = 3152519739159347 / 4503599627370496"
    using toDouble_eval [of "- 1" "7 / 10"] by (simp add: power_int_minus_divide rne_def Let_def)
  have b6: "toDouble (3152519739159347 / 4503599627370496) = 3152519739159347 / 4503599627370496"
    using toDouble_eval [of "- 1" "3152519739159347 / 4503599627370496"] by (simp add: power_int_minus_divide rne_def Let_def)
  show "Rep_draw (draw_of (7 / 10)) = 3152519739159347 / 4503599627370496"
    using draw_of_eval [OF a6 _ _ b6] by simp
qed





section \<open>Resolving a record by hand\<close>

lemma updateDoc_ok:
  "i \<in> fst ` set (appDocs w u) \<Longrightarrow>
   updateDoc True u i f w =
     Fulfilled (w\<lparr>writes := Suc (writes w),
        appDocs := (appDocs w)(u := map (\<lambda>(j, d). if j = i then (j, f d) else (j, d)) (appDocs w u))\<rparr>)"
  by (simp add: updateDoc_def Let_def)

lemma updateDoc_fail:
  "updateDoc False u i f w = Rejected StoreError (w\<lparr>writes := Suc (writes w)\<rparr>)"
  by (simp add: updateDoc_def Let_def)

lemma setDoc_fail:
  "setDoc False u p w = Rejected StoreError (w\<lparr>writes := Suc (writes w)\<rparr>)"
  by (simp add: setDoc_def Let_def)

lemma setDoc_ok:
  "setDoc True u p w =
     Fulfilled (w\<lparr>writes := Suc (writes w), profileDocs := (profileDocs w)(u := Some p)\<rparr>)"
  by (simp add: setDoc_def Let_def)

lemma manualNote_example:
  "manualNote ''I love this company because...'' =
     ''Respondido manualmente: '' @ [CHR 0x22] @ ''I love this company because......'' @ [CHR 0x22]"
  by (simp add: manualNote_def)

text \<open>
  The example of the spec does not hold: the answer \<open>I love this company because...\<close>
  has exactly 30 code units, so \<open>substring(0, 30)\<close> keeps all of it and the note does not
  end after \<open>compan\<close>.
\<close>

theorem resolveNeedsInput_example_counterexample:
  "length ''I love this company because...'' = 30
   \<and> status (sampleDoc needs_input (Some promptQuestion)) = needs_input
   \<and> map_of (appDocs sampleWorld ''u1'') ''abc123'' = Some (sampleDoc needs_input (Some promptQuestion))
   \<and> map_option notes'
       (map_of (appDocs (handleManualResponse True ''abc123'' ''I love this company because...''
                  sampleWorld) ''u1'') ''abc123'')
     \<noteq> Some (Some (''Respondido manualmente: '' @ [CHR 0x22] @ ''I love this compan...'' @ [CHR 0x22]))"
  by (simp add: sampleWorld_def mounted_def handleManualResponse_def updateDoc_def Let_def
      manualUpdate_def manualNote_def sampleDoc_def)

text \<open>
  Claim C2, amended. For a signed-in user and an update the store accepts, resolving a
  record that is in \<open>needs_input\<close> replaces it by the same record with status \<open>applied\<close>,
  the empty string as question and, as notes, \<open>Respondido manualmente: "\<close> followed by
  the first 30 code units of the answer (all of it when it is shorter) and \<open>..."\<close>; no
  other record changes. For the answer \<open>I love this company because...\<close> the notes are
  \<open>Respondido manualmente: "I love this company because......"\<close>.
\<close>

theorem resolveNeedsInput_effect:
  assumes "user w = Some u" and "(i, d) \<in> set (appDocs w u)" and "status d = needs_input"
  shows "(i, d\<lparr>status := applied, questionToAnswer := Some [],
               notes' := Some (''Respondido manualmente: '' @ [CHR 0x22] @ take 30 answer
                                @ ''...'' @ [CHR 0x22])\<rparr>)
           \<in> set (appDocs (handleManualResponse True i answer w) u)
         \<and> (i, d) \<notin> set (appDocs (handleManualResponse True i answer w) u)
         \<and> filter (\<lambda>e. fst e \<noteq> i) (appDocs (handleManualResponse True i answer w) u)
             = filter (\<lambda>e. fst e \<noteq> i) (appDocs w u)
         \<and> length (take 30 answer) \<le> 30
         \<and> manualNote ''I love this company because...'' =
             ''Respondido manualmente: '' @ [CHR 0x22] @ ''I love this company because......''
               @ [CHR 0x22]"
proof -
  let ?f = "manualUpdate answer"
  let ?g = "\<lambda>(j, e). if j = i then (j, ?f e) else (j, e)"
  have mem: "i \<in> fst ` set (appDocs w u)"
    using assms(2) by force
  have docs: "appDocs (handleManualResponse True i answer w) u = map ?g (appDocs w u)"
    using assms(1) mem by (simp add: handleManualResponse_def updateDoc_ok)
  have upd: "?f d = d\<lparr>status := applied, questionToAnswer := Some [],
               notes' := Some (''Respondido manualmente: '' @ [CHR 0x22] @ take 30 answer
                                @ ''...'' @ [CHR 0x22])\<rparr>"
    by (simp add: manualUpdate_def manualNote_def)
  have "?g (i, d) \<in> set (map ?g (appDocs w u))"
    using assms(2) unfolding set_map by (rule imageI)
  then have a: "(i, ?f d) \<in> set (appDocs (handleManualResponse True i answer w) u)"
    by (simp add: docs)
  have b: "(i, d) \<notin> set (map ?g (appDocs w u))"
  proof
    assume "(i, d) \<in> set (map ?g (appDocs w u))"
    then obtain j e where "(j, e) \<in> set (appDocs w u)" and "?g (j, e) = (i, d)"
      by auto
    then have "d = ?f e" by (auto split: if_splits)
    then have "status d = applied" by (simp add: manualUpdate_def)
    with assms(3) show False by simp
  qed
  have c: "filter (\<lambda>e. fst e \<noteq> i) (map ?g xs) = filter (\<lambda>e. fst e \<noteq> i) xs" for xs
    by (induction xs) (auto split: if_splits)
  show ?thesis
    using a b c [of "appDocs w u"] manualNote_example by (simp add: docs upd)
qed

theorem resolveNeedsInput_effect_witness:
  "user sampleWorld = Some ''u1''
   \<and> (''abc123'', sampleDoc needs_input (Some promptQuestion)) \<in> set (appDocs sampleWorld ''u1'')
   \<and> status (sampleDoc needs_input (Some promptQuestion)) = needs_input
   \<and> appDocs (handleManualResponse True ''abc123'' ''Gosto do produto'' sampleWorld) ''u1'' =
       [(''abc123'', (sampleDoc applied (Some []))
            \<lparr>notes' := Some (''Respondido manualmente: '' @ [CHR 0x22] @ ''Gosto do produto...'' @ [CHR 0x22])\<rparr>),
        (''def456'', sampleDoc applied None)]"
proof -
  have h1: "user sampleWorld = Some ''u1''"
    by (simp add: sampleWorld_def mounted_def)
  have h2: "(''abc123'', sampleDoc needs_input (Some promptQuestion)) \<in> set (appDocs sampleWorld ''u1'')"
    by (simp add: sampleWorld_def mounted_def)
  have h3: "status (sampleDoc needs_input (Some promptQuestion)) = needs_input"
    by (simp add: sampleDoc_def)
  note t = resolveNeedsInput_effect [OF h1 h2 h3, of "''Gosto do produto''"]
  have "appDocs (handleManualResponse True ''abc123'' ''Gosto do produto'' sampleWorld) ''u1'' =
       [(''abc123'', (sampleDoc applied (Some []))
            \<lparr>notes' := Some (''Respondido manualmente: '' @ [CHR 0x22] @ ''Gosto do produto...'' @ [CHR 0x22])\<rparr>),
        (''def456'', sampleDoc applied None)]"
    using t
    by (simp add: sampleWorld_def mounted_def handleManualResponse_def updateDoc_def Let_def
        manualUpdate_def manualNote_def sampleDoc_def)
  with h1 h2 h3 show ?thesis by simp
qed

section \<open>The question field\<close>

lemma hasQuestion_newJob: "hasQuestion (newJob i) \<longleftrightarrow> status (newJob i) = needs_input"
  by (simp add: hasQuestion_def newJob_fields classify_def promptQuestion_def)

lemma hasQuestion_manualUpdate:
  "\<not> hasQuestion (manualUpdate answer d) \<and> status (manualUpdate answer d) = applied"
  by (simp add: hasQuestion_def manualUpdate_def)

lemma hasQuestion_timestamp [simp]: "hasQuestion (d\<lparr>timestamp := t\<rparr>) = hasQuestion d"
  by (simp add: hasQuestion_def)

lemma botTick_appDocs:
  "appDocs (botTick cu i w) v = appDocs w v
   \<or> (writeOk i \<and> cu = Some v
      \<and> appDocs (botTick cu i w) v =
           appDocs w v @ [(newId i, (newJob i)\<lparr>timestamp := Some (serverTime i)\<rparr>)])"
  by (cases cu; cases "writeOk i")
     (simp_all add: botTick_def addDoc_ok addDoc_fail console_error_def)

lemma handleManualResponse_appDocs:
  "appDocs (handleManualResponse ok t answer w) v = appDocs w v
   \<or> appDocs (handleManualResponse ok t answer w) v =
       map (\<lambda>(j, d). if j = t then (j, manualUpdate answer d) else (j, d)) (appDocs w v)"
  by (cases "user w")
     (simp_all add: handleManualResponse_def updateDoc_def Let_def console_error_def)

lemma questionOnlyWhenNeeded_append:
  "questionOnlyWhenNeeded (xs @ [(j, d)]) \<longleftrightarrow>
     questionOnlyWhenNeeded xs \<and> (hasQuestion d \<longrightarrow> status d = needs_input)"
  by (simp add: questionOnlyWhenNeeded_def)

lemma questionOnlyWhenNeeded_update:
  "questionOnlyWhenNeeded xs \<Longrightarrow>
   questionOnlyWhenNeeded (map (\<lambda>(j, d). if j = t then (j, manualUpdate answer d) else (j, d)) xs)"
  by (induction xs) (auto simp: questionOnlyWhenNeeded_def hasQuestion_manualUpdate split: if_splits)

lemma handleManualResponse_resolved:
  assumes "user w = Some v" and "t \<in> fst ` set (appDocs w v)"
  shows "t \<in> fst ` set (appDocs (handleManualResponse True t answer w) v)
         \<and> list_all (\<lambda>(j, d). j = t \<longrightarrow> \<not> hasQuestion d \<and> status d = applied)
              (appDocs (handleManualResponse True t answer w) v)"
proof -
  let ?g = "\<lambda>(j, d). if j = t then (j, manualUpdate answer d) else (j, d)"
  have docs: "appDocs (handleManualResponse True t answer w) v = map ?g (appDocs w v)"
    using assms by (simp add: handleManualResponse_def updateDoc_ok)
  have ids: "map fst (map ?g xs) = map fst xs" for xs
    by (induction xs) (auto split: if_splits)
  have "fst ` set (map ?g (appDocs w v)) = fst ` set (appDocs w v)"
    using ids [of "appDocs w v"] by (metis set_map)
  then have a: "t \<in> fst ` set (appDocs (handleManualResponse True t answer w) v)"
    using assms(2) by (simp only: docs)
  have b: "list_all (\<lambda>(j, d). j = t \<longrightarrow> \<not> hasQuestion d \<and> status d = applied) (map ?g xs)" for xs
    by (induction xs) (auto simp: hasQuestion_manualUpdate split: if_splits)
  from a b [of "appDocs w v"] show ?thesis
    by (simp only: docs)
qed

text \<open>
  Claim C5. A document generated by a tick carries a question exactly when its status is
  \<open>needs_input\<close>, and this is the document an accepted tick stores; after an accepted
  manual response the stored record with the given id carries no question and is
  \<open>applied\<close>; and if every stored document of a user carries a question only in status
  \<open>needs_input\<close>, this is still so after a tick and after a manual response, whatever
  the store answers.
\<close>

theorem question_only_while_needs_input:
  "(hasQuestion (newJob i) \<longleftrightarrow> status (newJob i) = needs_input)
   \<and> \<not> hasQuestion (manualUpdate answer d) \<and> status (manualUpdate answer d) = applied
   \<and> (questionOnlyWhenNeeded (appDocs w v) \<longrightarrow>
         questionOnlyWhenNeeded (appDocs (botTick cu i w) v)
         \<and> questionOnlyWhenNeeded (appDocs (handleManualResponse ok t answer w) v))
   \<and> (writeOk i \<longrightarrow>
         (\<exists>d'. appDocs (botTick (Some v) i w) v = appDocs w v @ [(newId i, d')]
               \<and> status d' = status (newJob i)
               \<and> questionToAnswer d' = questionToAnswer (newJob i)
               \<and> (hasQuestion d' \<longleftrightarrow> status d' = needs_input)))
   \<and> (user w = Some v \<and> t \<in> fst ` set (appDocs w v) \<longrightarrow>
         t \<in> fst ` set (appDocs (handleManualResponse True t answer w) v)
         \<and> list_all (\<lambda>(j, d). j = t \<longrightarrow> \<not> hasQuestion d \<and> status d = applied)
              (appDocs (handleManualResponse True t answer w) v))"
proof -
  have tick: "questionOnlyWhenNeeded (appDocs (botTick cu i w) v)"
    if "questionOnlyWhenNeeded (appDocs w v)"
    using botTick_appDocs [of cu i w v] that hasQuestion_newJob [of i]
    by (auto simp: questionOnlyWhenNeeded_append newJob_fields)
  have res: "questionOnlyWhenNeeded (appDocs (handleManualResponse ok t answer w) v)"
    if "questionOnlyWhenNeeded (appDocs w v)"
    using handleManualResponse_appDocs [of ok t answer w v] that
      questionOnlyWhenNeeded_update [of "appDocs w v" t answer]
    by auto
  have stored: "\<exists>d'. appDocs (botTick (Some v) i w) v = appDocs w v @ [(newId i, d')]
               \<and> status d' = status (newJob i)
               \<and> questionToAnswer d' = questionToAnswer (newJob i)
               \<and> (hasQuestion d' \<longleftrightarrow> status d' = needs_input)"
    if "writeOk i"
  proof (intro exI conjI)
    show "appDocs (botTick (Some v) i w) v
        = appDocs w v @ [(newId i, (newJob i)\<lparr>timestamp := Some (serverTime i)\<rparr>)]"
      using that by (simp add: botTick_def addDoc_ok)
    show "hasQuestion ((newJob i)\<lparr>timestamp := Some (serverTime i)\<rparr>)
        \<longleftrightarrow> status ((newJob i)\<lparr>timestamp := Some (serverTime i)\<rparr>) = needs_input"
      using hasQuestion_newJob [of i] by simp
  qed simp_all
  show ?thesis
    using tick res stored hasQuestion_newJob [of i] hasQuestion_manualUpdate [of answer d]
      handleManualResponse_resolved [of w v t answer]
    by blast
qed

theorem question_only_while_needs_input_witness:
  "questionOnlyWhenNeeded (appDocs sampleWorld ''u1'')
   \<and> hasQuestion (newJob (sampleTick 0.7 0.1 True))
   \<and> \<not> hasQuestion (newJob (sampleTick 0.7 0.25 True))
   \<and> questionOnlyWhenNeeded (appDocs (botTick (Some ''u1'') (sampleTick 0.7 0.1 True) sampleWorld) ''u1'')
   \<and> questionOnlyWhenNeeded
        (appDocs (handleManualResponse True ''abc123'' ''Gosto do produto'' sampleWorld) ''u1'')
   \<and> length (appDocs (botTick (Some ''u1'') (sampleTick 0.7 0.1 True) sampleWorld) ''u1'') = 3
   \<and> writeOk (sampleTick 0.7 0.1 True)
   \<and> hasQuestion (snd (last (appDocs (botTick (Some ''u1'') (sampleTick 0.7 0.1 True) sampleWorld) ''u1'')))
   \<and> user sampleWorld = Some ''u1''
   \<and> map_option hasQuestion (map_of (appDocs sampleWorld ''u1'') ''abc123'') = Some True
   \<and> map_option hasQuestion
        (map_of (appDocs (handleManualResponse True ''abc123'' ''Gosto do produto'' sampleWorld) ''u1'')
           ''abc123'') = Some False
   \<and> map_option status
        (map_of (appDocs (handleManualResponse True ''abc123'' ''Gosto do produto'' sampleWorld) ''u1'')
           ''abc123'') = Some applied"
proof -
  let ?t1 = "sampleTick 0.7 0.1 True"
  let ?after = "appDocs (handleManualResponse True ''abc123'' ''Gosto do produto'' sampleWorld) ''u1''"
  have h: "questionOnlyWhenNeeded (appDocs sampleWorld ''u1'')"
    by (simp add: questionOnlyWhenNeeded_def sampleWorld_def mounted_def sampleDoc_def
        hasQuestion_def)
  have s1: "status (newJob ?t1) = needs_input"
    by (simp add: newJob_fields classify_def sampleTick_def sample_draws lit_02 lit_03 lit_05)
  have s2: "status (newJob (sampleTick 0.7 0.25 True)) = failed"
    by (simp add: newJob_fields classify_def sampleTick_def sample_draws lit_02 lit_03 lit_05)
  have l: "length (appDocs (botTick (Some ''u1'') ?t1 sampleWorld) ''u1'') = 3"
    by (simp add: botTick_def addDoc_ok sampleTick_def sampleWorld_def mounted_def)
  have ok: "writeOk ?t1"
    by (simp add: sampleTick_def)
  have u: "user sampleWorld = Some ''u1''" and m: "''abc123'' \<in> fst ` set (appDocs sampleWorld ''u1'')"
    and before: "map_option hasQuestion (map_of (appDocs sampleWorld ''u1'') ''abc123'') = Some True"
    by (simp_all add: sampleWorld_def mounted_def sampleDoc_def hasQuestion_def promptQuestion_def)
  note t = question_only_while_needs_input [of ?t1 "''Gosto do produto''"
        "sampleDoc needs_input (Some promptQuestion)" sampleWorld "''u1''" "Some ''u1''" True "''abc123''"]
  from t ok obtain d' where d': "appDocs (botTick (Some ''u1'') ?t1 sampleWorld) ''u1''
        = appDocs sampleWorld ''u1'' @ [(newId ?t1, d')]"
      "status d' = status (newJob ?t1)" "hasQuestion d' \<longleftrightarrow> status d' = needs_input"
    by blast
  then have stored: "hasQuestion (snd (last (appDocs (botTick (Some ''u1'') ?t1 sampleWorld) ''u1'')))"
    using s1 by simp
  from t u m have r: "''abc123'' \<in> fst ` set ?after"
      "list_all (\<lambda>(j, d). j = ''abc123'' \<longrightarrow> \<not> hasQuestion d \<and> status d = applied) ?after"
    by blast+
  from r(1) obtain d where d: "map_of ?after ''abc123'' = Some d"
    by (metis domD dom_map_of_conv_image_fst)
  then have "(''abc123'', d) \<in> set ?after"
    by (rule map_of_SomeD)
  with r(2) have "\<not> hasQuestion d \<and> status d = applied"
    by (auto simp: list_all_iff)
  with d have after: "map_option hasQuestion (map_of ?after ''abc123'') = Some False"
      "map_option status (map_of ?after ''abc123'') = Some applied"
    by simp_all
  show ?thesis
    using h s1 s2 l ok stored u before after t
      question_only_while_needs_input [of "sampleTick 0.7 0.25 True"]
    by simp
qed

section \<open>The profile listener\<close>

text \<open>
  Claim C8. When the signed-in user has no profile document, the profile listener shows
  the default profile, whose name is \<open>Novo Usu\<close>, a-acute, \<open>rio\<close> and whose other fields
  are empty, and changes nothing else: no document is written and no write is attempted.
\<close>

theorem observeProfile_default:
  assumes "user w = Some u" and "profileDocs w u = None"
  shows "observeProfile w =
           w\<lparr>profile := \<lparr>fullName = ''Novo Usu'' @ [CHR 0xE1] @ ''rio'', email = [],
                          linkedinUrl = [], bio = [], experience = [], skills = []\<rparr>\<rparr>
         \<and> profileDocs (observeProfile w) = profileDocs w
         \<and> appDocs (observeProfile w) = appDocs w
         \<and> writes (observeProfile w) = writes w"
  using assms by (simp add: observeProfile_def onProfileSnapshot_def defaultProfile_def)

theorem observeProfile_default_witness:
  "user sampleWorld = Some ''u1'' \<and> profileDocs sampleWorld ''u1'' = None
   \<and> fullName (profile (observeProfile sampleWorld)) = ''Novo Usu'' @ [CHR 0xE1] @ ''rio''
   \<and> email (profile (observeProfile sampleWorld)) = []
   \<and> profileDocs (observeProfile sampleWorld) ''u1'' = None
   \<and> writes (observeProfile sampleWorld) = 0"
proof -
  have h1: "user sampleWorld = Some ''u1''" and h2: "profileDocs sampleWorld ''u1'' = None"
    by (simp_all add: sampleWorld_def mounted_def)
  have w0: "writes sampleWorld = 0"
    by (simp add: sampleWorld_def mounted_def)
  show ?thesis
    using observeProfile_default [OF h1 h2] h1 h2 w0 by simp
qed

section \<open>Rejected writes\<close>

text \<open>
  Claim C9. For a signed-in user, a rejected \<open>saveProfile\<close> logs the error and shows
  the alert \<open>Erro ao salvar perfil. Verifique as chaves do Firebase.\<close>, and changes
  nothing else: the displayed profile and list and the store are as before. A rejected
  tick and a rejected manual response (also one for a record that does not exist) log the
  error and show no alert. Each of the three operations attempts exactly one write,
  accepted or not: none retries.
\<close>

theorem write_failures:
  assumes "user w = Some u"
  shows "saveProfile False w =
           w\<lparr>writes := Suc (writes w),
             console := console w @ [([], StoreError)],
             alerts := alerts w @ [''Erro ao salvar perfil. Verifique as chaves do Firebase.'']\<rparr>
         \<and> (\<not> writeOk i \<longrightarrow>
              botTick (Some u) i w =
                w\<lparr>writes := Suc (writes w),
                  console := console w @ [(''Bot error writing to DB'', StoreError)]\<rparr>)
         \<and> handleManualResponse False t answer w =
              w\<lparr>writes := Suc (writes w), console := console w @ [([], StoreError)]\<rparr>
         \<and> (t \<notin> fst ` set (appDocs w u) \<longrightarrow>
              handleManualResponse ok t answer w =
                w\<lparr>writes := Suc (writes w), console := console w @ [([], StoreError)]\<rparr>)
         \<and> writes (saveProfile ok w) = Suc (writes w)
         \<and> writes (botTick (Some u) i w) = Suc (writes w)
         \<and> writes (handleManualResponse ok t answer w) = Suc (writes w)"
proof -
  have a: "saveProfile False w =
           w\<lparr>writes := Suc (writes w),
             console := console w @ [([], StoreError)],
             alerts := alerts w @ [''Erro ao salvar perfil. Verifique as chaves do Firebase.'']\<rparr>"
    using assms by (simp add: saveProfile_def setDoc_fail alert_def console_error_def)
  have b: "botTick (Some u) i w =
                w\<lparr>writes := Suc (writes w),
                  console := console w @ [(''Bot error writing to DB'', StoreError)]\<rparr>"
    if "\<not> writeOk i"
    using that by (simp add: botTick_def addDoc_fail console_error_def)
  have c: "handleManualResponse False t answer w =
              w\<lparr>writes := Suc (writes w), console := console w @ [([], StoreError)]\<rparr>"
    using assms by (simp add: handleManualResponse_def updateDoc_fail console_error_def)
  have d: "handleManualResponse ok t answer w =
                w\<lparr>writes := Suc (writes w), console := console w @ [([], StoreError)]\<rparr>"
    if "t \<notin> fst ` set (appDocs w u)"
    using assms that by (simp add: handleManualResponse_def updateDoc_def Let_def console_error_def)
  have e: "writes (saveProfile ok w) = Suc (writes w)"
    using assms by (cases ok) (simp_all add: saveProfile_def setDoc_ok setDoc_fail alert_def
        console_error_def)
  have f: "writes (botTick (Some u) i w) = Suc (writes w)"
    by (cases "writeOk i") (simp_all add: botTick_def addDoc_ok addDoc_fail console_error_def)
  have g: "writes (handleManualResponse ok t answer w) = Suc (writes w)"
    using assms by (simp add: handleManualResponse_def updateDoc_def Let_def console_error_def)
  from a b c d e f g show ?thesis by blast
qed

theorem write_failures_witness:
  "user sampleWorld = Some ''u1''
   \<and> alerts (saveProfile False sampleWorld)
       = [''Erro ao salvar perfil. Verifique as chaves do Firebase.'']
   \<and> profile (saveProfile False sampleWorld) = profile sampleWorld
   \<and> \<not> writeOk (sampleTick 0.7 0.5 False)
   \<and> alerts (botTick (Some ''u1'') (sampleTick 0.7 0.5 False) sampleWorld) = []
   \<and> console (botTick (Some ''u1'') (sampleTick 0.7 0.5 False) sampleWorld)
       = [(''Bot error writing to DB'', StoreError)]
   \<and> ''nope'' \<notin> fst ` set (appDocs sampleWorld ''u1'')
   \<and> alerts (handleManualResponse True ''nope'' ''Gosto do produto'' sampleWorld) = []
   \<and> console (handleManualResponse True ''nope'' ''Gosto do produto'' sampleWorld)
       = [([], StoreError)]
   \<and> writes (handleManualResponse True ''nope'' ''Gosto do produto'' sampleWorld) = 1"
proof -
  have h: "user sampleWorld = Some ''u1''" "\<not> writeOk (sampleTick 0.7 0.5 False)"
    "''nope'' \<notin> fst ` set (appDocs sampleWorld ''u1'')"
    "alerts sampleWorld = []" "console sampleWorld = []" "writes sampleWorld = 0"
    by (simp_all add: sampleWorld_def mounted_def sampleTick_def)
  show ?thesis
    using write_failures [OF h(1), of "sampleTick 0.7 0.5 False" "''nope''" "''Gosto do produto''" True] h
    by simp
qed

section \<open>The order of the displayed list\<close>

lemma insertBy_insort_key:
  assumes "getTime (date x) \<noteq> None" and "\<forall>y\<in>set ys. getTime (date y) \<noteq> None"
  shows "insertBy (byDateDesc getTime) x ys = insort_key (dateKey getTime) x ys"
  using assms
  by (induction ys) (auto simp: sortCompare_def byDateDesc_def dateKey_def)

lemma array_sort_sort_key:
  assumes "\<forall>y\<in>set xs. getTime (date y) \<noteq> None"
  shows "array_sort (byDateDesc getTime) xs = sort_key (dateKey getTime) xs"
  using assms
proof (induction xs)
  case Nil
  then show ?case by simp
next
  case (Cons x xs)
  have "\<forall>y\<in>set (sort_key (dateKey getTime) xs). getTime (date y) \<noteq> None"
    using Cons.prems by simp
  then show ?case
    using Cons by (simp add: insertBy_insort_key)
qed

lemma date_withId [simp]: "date (withId i d) = date d"
  by (simp add: withId_def)

lemma date_manualUpdate [simp]: "date (manualUpdate answer d) = date d"
  by (simp add: manualUpdate_def)

lemma valid_dates_kept:
  assumes "list_all (\<lambda>(j, d). getTime (date d) \<noteq> None) (appDocs w v)"
    and "getTime (now i) \<noteq> None"
  shows "list_all (\<lambda>(j, d). getTime (date d) \<noteq> None) (appDocs (botTick cu i w) v)"
    and "list_all (\<lambda>(j, d). getTime (date d) \<noteq> None)
           (appDocs (handleManualResponse ok t answer w) v)"
proof -
  show "list_all (\<lambda>(j, d). getTime (date d) \<noteq> None) (appDocs (botTick cu i w) v)"
    using botTick_appDocs [of cu i w v] assms by (auto simp: newJob_fields)
  have "list_all (\<lambda>(j, d). getTime (date d) \<noteq> None)
          (map (\<lambda>(j, d). if j = t then (j, manualUpdate answer d) else (j, d)) xs)"
    if "list_all (\<lambda>(j, d). getTime (date d) \<noteq> None) xs" for xs
    using that by (induction xs) (auto split: if_splits)
  then show "list_all (\<lambda>(j, d). getTime (date d) \<noteq> None)
           (appDocs (handleManualResponse ok t answer w) v)"
    using handleManualResponse_appDocs [of ok t answer w v] assms(1) by auto
qed

text \<open>
  Claim C6. Whatever the order in which a snapshot delivers the documents, the displayed
  list holds the same records, each record's instant is not before the instant of any
  record after it, and the records of one instant stand in the order of the snapshot.
  The dates are valid ones: every date the program writes is the clock's
  \<open>new Date().toISOString()\<close>, and a manual response leaves the date alone
  (\<open>valid_dates_kept\<close>).
\<close>

theorem applications_sorted_by_date_desc:
  assumes "list_all (\<lambda>(i, d). getTime (date d) \<noteq> None) docs"
  shows "sorted_wrt (\<lambda>a b. \<exists>ta tb. getTime (date a) = Some ta \<and> getTime (date b) = Some tb \<and> tb \<le> ta)
           (applications (onAppsSnapshot getTime docs w))
         \<and> mset (applications (onAppsSnapshot getTime docs w)) = mset (map (\<lambda>(i, d). withId i d) docs)
         \<and> (\<forall>t. filter (\<lambda>a. getTime (date a) = Some t) (applications (onAppsSnapshot getTime docs w))
                = filter (\<lambda>a. getTime (date a) = Some t) (map (\<lambda>(i, d). withId i d) docs))"
proof -
  let ?apps = "map (\<lambda>(i, d). withId i d) docs"
  let ?out = "applications (onAppsSnapshot getTime docs w)"
  let ?key = "dateKey getTime"
  have valid: "\<forall>a\<in>set ?apps. getTime (date a) \<noteq> None"
    using assms by (auto simp: list_all_iff)
  have out: "?out = sort_key ?key ?apps"
    using array_sort_sort_key [OF valid] by (simp add: onAppsSnapshot_def)
  have valid_out: "\<forall>a\<in>set ?out. getTime (date a) \<noteq> None"
    using valid by (simp add: out)
  have "sorted (map ?key ?out)"
    by (simp add: out)
  then have "sorted_wrt (\<lambda>a b. ?key a \<le> ?key b) ?out"
    by (simp add: sorted_map)
  then have s: "sorted_wrt (\<lambda>a b. \<exists>ta tb. getTime (date a) = Some ta \<and> getTime (date b) = Some tb \<and> tb \<le> ta) ?out"
  proof (rule sorted_wrt_mono_rel [rotated])
    fix x y
    assume "x \<in> set ?out" and "y \<in> set ?out" and le: "?key x \<le> ?key y"
    then obtain ta tb where "getTime (date x) = Some ta" and "getTime (date y) = Some tb"
      using valid_out by blast
    then show "\<exists>ta tb. getTime (date x) = Some ta \<and> getTime (date y) = Some tb \<and> tb \<le> ta"
      using le by (simp add: dateKey_def)
  qed
  have m: "mset ?out = mset ?apps"
    by (simp add: out)
  have eq: "filter (\<lambda>a. getTime (date a) = Some t) xs = filter (\<lambda>a. ?key a = - t) xs"
    if "\<forall>a\<in>set xs. getTime (date a) \<noteq> None" for t xs
    using that by (intro filter_cong) (auto simp: dateKey_def)
  have st: "filter (\<lambda>a. getTime (date a) = Some t) ?out = filter (\<lambda>a. getTime (date a) = Some t) ?apps" for t
    using eq [OF valid_out, of t] eq [OF valid, of t] sort_key_stable [of ?key "- t" ?apps]
    by (simp add: out)
  from s m st show ?thesis by blast
qed

theorem applications_sorted_by_date_desc_witness:
  "list_all (\<lambda>(i, d). sampleClock (date d) \<noteq> None) sampleDocs
   \<and> map id' (applications (onAppsSnapshot sampleClock sampleDocs (mounted None (\<lambda>u. None) (\<lambda>u. [])))) = [''b'', ''a'', ''c'', ''d'']
   \<and> sorted_wrt (\<lambda>a b. \<exists>ta tb. sampleClock (date a) = Some ta \<and> sampleClock (date b) = Some tb \<and> tb \<le> ta)
           (applications (onAppsSnapshot sampleClock sampleDocs (mounted None (\<lambda>u. None) (\<lambda>u. []))))"
proof -
  have h: "list_all (\<lambda>(i, d). sampleClock (date d) \<noteq> None) sampleDocs"
    by (simp add: sampleDocs_def sampleClock_def sampleDoc_def)
  have o: "map id' (applications (onAppsSnapshot sampleClock sampleDocs (mounted None (\<lambda>u. None) (\<lambda>u. [])))) = [''b'', ''a'', ''c'', ''d'']"
    by (simp add: onAppsSnapshot_def sampleDocs_def sampleClock_def sampleDoc_def withId_def
        byDateDesc_def sortCompare_def)
  show ?thesis
    using applications_sorted_by_date_desc [OF h, of "mounted None (\<lambda>u. None) (\<lambda>u. [])"] h o by simp
qed

section \<open>The scheduler of the bot\<close>

lemma botTimers_clearInterval:
  "botTimers (clearInterval h w) = filter (\<lambda>k. k \<noteq> h) (botTimers w)"
  by (simp add: botTimers_def clearInterval_def filter_map o_def conj_commute)

lemma toggleBot_start:
  "\<not> isBotRunning w \<Longrightarrow>
   toggleBot w = w\<lparr>isBotRunning := True, timers := timers w @ [(nextTimer w, BotTick (user w))],
                   nextTimer := Suc (nextTimer w), botIntervalRef := Some (nextTimer w)\<rparr>"
  by (simp add: toggleBot_def setTimer_def)

lemma toggleBot_stop:
  "isBotRunning w \<Longrightarrow> botIntervalRef w = Some h \<Longrightarrow> h \<noteq> 0 \<Longrightarrow>
   toggleBot w = w\<lparr>isBotRunning := False, timers := filter (\<lambda>t. fst t \<noteq> h) (timers w)\<rparr>"
  by (simp add: toggleBot_def clearBotInterval_def clearInterval_def)

lemma schedulerOk_toggleBot:
  assumes "schedulerOk w"
  shows "schedulerOk (toggleBot w)
         \<and> isBotRunning (toggleBot w) = (\<not> isBotRunning w)
         \<and> length (botTimers (toggleBot w)) = (if isBotRunning w then 0 else 1)"
proof (cases "isBotRunning w")
  case False
  then have "botTimers w = []" and "0 < nextTimer w"
    using assms by (simp_all add: schedulerOk_def)
  then show ?thesis
    using False by (simp add: toggleBot_start schedulerOk_def botTimers_def)
next
  case True
  then obtain h where h: "botIntervalRef w = Some h" "h \<noteq> 0" "botTimers w = [h]"
    and n: "0 < nextTimer w"
    using assms by (auto simp: schedulerOk_def split: option.splits)
  have "toggleBot w = (clearInterval h w)\<lparr>isBotRunning := False\<rparr>"
    using True h by (simp add: toggleBot_def clearBotInterval_def clearInterval_def)
  moreover have "botTimers (clearInterval h w) = []"
    using h by (simp add: botTimers_clearInterval)
  ultimately show ?thesis
    using True n by (simp add: schedulerOk_def botTimers_def clearInterval_def)
qed

lemma schedulerOk_funpow:
  "schedulerOk w \<Longrightarrow> schedulerOk ((toggleBot ^^ n) w)"
  by (induction n) (simp_all add: schedulerOk_toggleBot)

lemma schedulerOk_at_most_one:
  "schedulerOk w \<Longrightarrow> length (botTimers w) \<le> 1"
  by (auto simp: schedulerOk_def split: if_splits option.splits)

lemma fire_no_bot_timer:
  assumes "botTimers w = []"
  shows "appDocs (fire h i w) = appDocs w \<and> writes (fire h i w) = writes w
         \<and> botTimers (fire h i w) = []"
proof (cases "map_of (timers w) h")
  case None
  then show ?thesis using assms by (simp add: fire_def)
next
  case (Some cb)
  then have mem: "(h, cb) \<in> set (timers w)"
    by (rule map_of_SomeD)
  have "\<not> isBotTick cb"
  proof
    assume "isBotTick cb"
    with mem have "h \<in> set (botTimers w)"
      by (force simp: botTimers_def)
    with assms show False by simp
  qed
  then have "cb = EnterDone" by (cases cb) simp_all
  then show ?thesis
    using Some assms
    by (simp add: fire_def clearInterval_def botTimers_def filter_empty_conv)
qed

lemma fires_no_bot_timer:
  "botTimers w = [] \<Longrightarrow> appDocs (fires es w) = appDocs w \<and> writes (fires es w) = writes w"
proof (induction es arbitrary: w)
  case Nil
  then show ?case by simp
next
  case (Cons e es)
  obtain h i where e: "e = (h, i)" by (cases e)
  show ?case
    using Cons.IH [of "fire h i w"] fire_no_bot_timer [OF Cons.prems, of h i]
    by (simp add: e)
qed

text \<open>
  The source has one operation on the scheduler, \<open>toggleBot\<close>, and no separate start
  or stop. Invoked on a running bot it does not leave the bot as it is: it stops the bot
  and no interval is left, where the claim expects a no-op and one interval.
\<close>

theorem start_while_running_counterexample:
  "schedulerOk sampleWorld \<and> \<not> isBotRunning sampleWorld
   \<and> isBotRunning (toggleBot sampleWorld)
   \<and> botTimers (toggleBot sampleWorld) = [1]
   \<and> toggleBot (toggleBot sampleWorld) \<noteq> toggleBot sampleWorld
   \<and> \<not> isBotRunning (toggleBot (toggleBot sampleWorld))
   \<and> botTimers (toggleBot (toggleBot sampleWorld)) = []"
proof -
  have a: "\<not> isBotRunning sampleWorld" "botTimers sampleWorld = []" "nextTimer sampleWorld = 1"
    by (simp_all add: sampleWorld_def mounted_def botTimers_def)
  then have ok: "schedulerOk sampleWorld"
    by (simp add: schedulerOk_def)
  have r: "isBotRunning (toggleBot sampleWorld)" "botTimers (toggleBot sampleWorld) = [1]"
      "botIntervalRef (toggleBot sampleWorld) = Some 1"
    using a by (simp_all add: toggleBot_start botTimers_def)
  have ok1: "schedulerOk (toggleBot sampleWorld)"
    using schedulerOk_toggleBot [OF ok] by simp
  have s: "\<not> isBotRunning (toggleBot (toggleBot sampleWorld))"
      "botTimers (toggleBot (toggleBot sampleWorld)) = []"
    using schedulerOk_toggleBot [OF ok1] r(1) by simp_all
  from r(1) s(1) have "toggleBot (toggleBot sampleWorld) \<noteq> toggleBot sampleWorld"
    by metis
  with ok a r s show ?thesis by simp
qed

text \<open>
  Claim C3, amended. The scheduler has two states, stopped and running, and the one
  operation \<open>toggleBot\<close> flips between them: on a stopped bot it registers exactly one
  interval, on a running bot it cancels that interval and none is left, so after any
  number of toggles there is at most one. After a stop no timer callback attempts a write
  or adds a record, however many fire.
\<close>

theorem toggleBot_two_state_machine:
  assumes "schedulerOk w"
  shows "schedulerOk (toggleBot w)
         \<and> isBotRunning (toggleBot w) = (\<not> isBotRunning w)
         \<and> length (botTimers (toggleBot w)) = (if isBotRunning w then 0 else 1)
         \<and> length (botTimers ((toggleBot ^^ n) w)) \<le> 1
         \<and> (isBotRunning w \<longrightarrow>
              appDocs (fires es (toggleBot w)) = appDocs (toggleBot w)
              \<and> writes (fires es (toggleBot w)) = writes (toggleBot w))"
proof -
  note t = schedulerOk_toggleBot [OF assms]
  have "botTimers (toggleBot w) = []" if "isBotRunning w"
    using t that by simp
  then show ?thesis
    using t fires_no_bot_timer [of "toggleBot w" es]
      schedulerOk_at_most_one [OF schedulerOk_funpow [OF assms, of n]] by blast
qed

theorem toggleBot_two_state_machine_witness:
  "schedulerOk sampleWorld
   \<and> isBotRunning (toggleBot sampleWorld) \<and> length (botTimers (toggleBot sampleWorld)) = 1
   \<and> schedulerOk (toggleBot sampleWorld)
   \<and> \<not> isBotRunning (toggleBot (toggleBot sampleWorld))
   \<and> length (botTimers (toggleBot (toggleBot sampleWorld))) = 0
   \<and> appDocs (fires [(1, sampleTick 0.7 0.5 True), (1, sampleTick 0.7 0.1 True)]
                (toggleBot (toggleBot sampleWorld))) ''u1'' = appDocs sampleWorld ''u1''"
proof -
  have a: "\<not> isBotRunning sampleWorld" "botTimers sampleWorld = []" "nextTimer sampleWorld = 1"
    by (simp_all add: sampleWorld_def mounted_def botTimers_def)
  then have ok: "schedulerOk sampleWorld"
    by (simp add: schedulerOk_def)
  note t1 = toggleBot_two_state_machine [OF ok, of 2 "[]"]
  from t1 have ok1: "schedulerOk (toggleBot sampleWorld)" by simp
  from t1 a have r1: "isBotRunning (toggleBot sampleWorld)" by simp
  note t2 = toggleBot_two_state_machine [OF ok1,
      of 0 "[(1, sampleTick 0.7 0.5 True), (1, sampleTick 0.7 0.1 True)]"]
  have d: "appDocs (toggleBot (toggleBot sampleWorld)) = appDocs sampleWorld"
    using a r1 t1 by (simp add: toggleBot_def clearBotInterval_def clearInterval_def setTimer_def
        split: option.splits)
  show ?thesis
    using ok t1 t2 a r1 d by simp
qed

section \<open>The end of a session\<close>

lemma unmountCleanup_cancels:
  "schedulerOk w \<Longrightarrow> botTimers (unmountCleanup w) = []"
  by (auto simp: schedulerOk_def unmountCleanup_def clearBotInterval_def botTimers_clearInterval
      split: if_splits option.splits)

lemma pageTeardown_cancels: "timers (pageTeardown w) = []"
  by (simp add: pageTeardown_def)

lemma running_sample:
  "toggleBot sampleWorld =
     sampleWorld\<lparr>isBotRunning := True, timers := [(1, BotTick (Some ''u1''))],
                 nextTimer := 2, botIntervalRef := Some 1\<rparr>"
  by (simp add: toggleBot_def setTimer_def sampleWorld_def mounted_def)

text \<open>
  Claim C4. With the bot running for user \<open>u1\<close>, \<open>handleLogout\<close> sets
  \<open>isBotRunning\<close> to false and asks for a reload, but the interval stays registered: a
  tick that falls due before the page is torn down still adds a record. The same holds
  when the identity provider reports that there is no user any more: the listener sets
  \<open>isBotRunning\<close> to false, the interval stays, and its callback still writes for the
  user it closed over. The stop branch of \<open>toggleBot\<close> and the cleanup on unmount do
  cancel the interval.
\<close>

theorem logout_leaves_interval_running:
  "isBotRunning (toggleBot sampleWorld)
   \<and> \<not> isBotRunning (handleLogout (toggleBot sampleWorld))
   \<and> reloadRequested (handleLogout (toggleBot sampleWorld))
   \<and> timers (handleLogout (toggleBot sampleWorld)) = [(1, BotTick (Some ''u1''))]
   \<and> appDocs (fire 1 (sampleTick 0.7 0.5 True) (handleLogout (toggleBot sampleWorld))) ''u1''
       = appDocs sampleWorld ''u1''
         @ [(''xyz789'', (newJob (sampleTick 0.7 0.5 True))\<lparr>timestamp := Some 7\<rparr>)]
   \<and> user (authListener None (toggleBot sampleWorld)) = None
   \<and> \<not> isBotRunning (authListener None (toggleBot sampleWorld))
   \<and> timers (authListener None (toggleBot sampleWorld)) = [(1, BotTick (Some ''u1''))]
   \<and> appDocs (fire 1 (sampleTick 0.7 0.5 True) (authListener None (toggleBot sampleWorld))) ''u1''
       = appDocs sampleWorld ''u1''
         @ [(''xyz789'', (newJob (sampleTick 0.7 0.5 True))\<lparr>timestamp := Some 7\<rparr>)]
   \<and> timers (unmountCleanup (toggleBot sampleWorld)) = []"
  by (simp add: running_sample handleLogout_def authListener_def fire_def botTick_def addDoc_def
      Let_def sampleTick_def unmountCleanup_def clearBotInterval_def clearInterval_def)

section \<open>Operations without an identity\<close>

lemma guards_without_user:
  "(user w = None \<longrightarrow> saveProfile ok w = w \<and> handleManualResponse ok t answer w = w)
   \<and> botTick None i w = w"
  by (simp add: saveProfile_def handleManualResponse_def botTick_def)

lemma identity_lost_sample:
  "authStateChanged ((toggleBot sampleWorld)\<lparr>currentUser := None\<rparr>) =
     sampleWorld\<lparr>isBotRunning := False, timers := [(1, BotTick (Some ''u1''))],
                 nextTimer := 2, botIntervalRef := Some 1, currentUser := None, user := None\<rparr>"
  by (simp add: running_sample authStateChanged_def authListener_def Let_def)

text \<open>
  Claim C10. The bot is running for user \<open>u1\<close> and the provider loses the identity and
  tells the listener: now neither \<open>user\<close> nor the provider holds an identity.
  \<open>saveProfile\<close> and \<open>handleManualResponse\<close> return at once and change nothing. The
  interval callback does not: it tests the \<open>user\<close> it closed over when the bot was
  started, still \<open>u1\<close>, attempts a write and adds a record.
\<close>

theorem tick_writes_without_identity:
  "user (authStateChanged ((toggleBot sampleWorld)\<lparr>currentUser := None\<rparr>)) = None
   \<and> currentUser (authStateChanged ((toggleBot sampleWorld)\<lparr>currentUser := None\<rparr>)) = None
   \<and> saveProfile True (authStateChanged ((toggleBot sampleWorld)\<lparr>currentUser := None\<rparr>))
       = authStateChanged ((toggleBot sampleWorld)\<lparr>currentUser := None\<rparr>)
   \<and> handleManualResponse True ''abc123'' ''Gosto do produto''
         (authStateChanged ((toggleBot sampleWorld)\<lparr>currentUser := None\<rparr>))
       = authStateChanged ((toggleBot sampleWorld)\<lparr>currentUser := None\<rparr>)
   \<and> writes (fire 1 (sampleTick 0.7 0.5 True)
         (authStateChanged ((toggleBot sampleWorld)\<lparr>currentUser := None\<rparr>)))
       = Suc (writes (authStateChanged ((toggleBot sampleWorld)\<lparr>currentUser := None\<rparr>)))
   \<and> appDocs (fire 1 (sampleTick 0.7 0.5 True)
         (authStateChanged ((toggleBot sampleWorld)\<lparr>currentUser := None\<rparr>))) ''u1''
       = appDocs sampleWorld ''u1''
         @ [(''xyz789'', (newJob (sampleTick 0.7 0.5 True))\<lparr>timestamp := Some 7\<rparr>)]"
  by (simp add: identity_lost_sample saveProfile_def handleManualResponse_def fire_def botTick_def
      addDoc_def Let_def sampleTick_def)

section \<open>Entering\<close>

lemma handleLogin_signed_in:
  "currentUser w = Some u \<Longrightarrow>
   handleLogin res w =
     Fulfilled (w\<lparr>loginLoading := True, timers := timers w @ [(nextTimer w, EnterDone)],
                  nextTimer := Suc (nextTimer w)\<rparr>)"
  by (simp add: handleLogin_def Let_def setTimer_def)

lemma handleLogin_signed_out:
  "currentUser w = None \<Longrightarrow>
   handleLogin (Inr v) w =
     Fulfilled (w\<lparr>loginLoading := True, currentUser := Some v, identities := identities w @ [v],
                  timers := timers w @ [(nextTimer w, EnterDone)],
                  nextTimer := Suc (nextTimer w)\<rparr>)"
  by (simp add: handleLogin_def Let_def setTimer_def signInAnonymously_def)

lemma handleLogin_rejected:
  "currentUser w = None \<Longrightarrow> handleLogin (Inl e) w = Rejected e (w\<lparr>loginLoading := True\<rparr>)"
  by (simp add: handleLogin_def Let_def signInAnonymously_def)

lemma handleLogin_cases:
  obtains (reuse) u where "currentUser w = Some u"
    "handleLogin res w =
       Fulfilled (w\<lparr>loginLoading := True, timers := timers w @ [(nextTimer w, EnterDone)],
                    nextTimer := Suc (nextTimer w)\<rparr>)"
  | (create) v where "currentUser w = None" "res = Inr v"
    "handleLogin res w =
       Fulfilled (w\<lparr>loginLoading := True, currentUser := Some v, identities := identities w @ [v],
                    timers := timers w @ [(nextTimer w, EnterDone)],
                    nextTimer := Suc (nextTimer w)\<rparr>)"
  | (reject) e where "currentUser w = None" "res = Inl e"
    "handleLogin res w = Rejected e (w\<lparr>loginLoading := True\<rparr>)"
proof (cases "currentUser w")
  case (Some u)
  show ?thesis
    by (rule reuse [OF Some]) (rule handleLogin_signed_in [OF Some])
next
  case None
  show ?thesis
  proof (cases res)
    case (Inl e)
    show ?thesis
      by (rule reject [OF None Inl]) (simp add: Inl handleLogin_rejected [OF None])
  next
    case (Inr v)
    show ?thesis
      by (rule create [OF None Inr]) (simp add: Inr handleLogin_signed_out [OF None])
  qed
qed

lemma map_of_fresh:
  "timersFresh w \<Longrightarrow> map_of (timers w @ [(nextTimer w, cb)]) (nextTimer w) = Some cb"
proof -
  assume "timersFresh w"
  then have "nextTimer w \<notin> fst ` set (timers w)"
    by (auto simp: timersFresh_def list_all_iff)
  then have "map_of (timers w) (nextTimer w) = None"
    by (simp add: map_of_eq_None_iff)
  then show ?thesis
    by (simp add: map_add_def)
qed

text \<open>
  Claim C7. \<open>handleLogin\<close> called while the provider has an identity succeeds, keeps that
  identity and creates none; called again after it has succeeded it again creates none.
  After a successful call from the entry screen, once the provider has delivered the
  identity to the listener and the timeout has run, the authenticated shell is shown.
\<close>

theorem enter_reuses_identity:
  "(currentUser w = Some u \<longrightarrow>
      isFulfilled (handleLogin res w)
      \<and> currentUser (worldOf (handleLogin res w)) = Some u
      \<and> identities (worldOf (handleLogin res w)) = identities w)
   \<and> (isFulfilled (handleLogin res w) \<longrightarrow>
      isFulfilled (handleLogin res' (worldOf (handleLogin res w)))
      \<and> currentUser (worldOf (handleLogin res' (worldOf (handleLogin res w))))
          = currentUser (worldOf (handleLogin res w))
      \<and> identities (worldOf (handleLogin res' (worldOf (handleLogin res w))))
          = identities (worldOf (handleLogin res w)))
   \<and> (isFulfilled (handleLogin res w) \<and> render w = LoginScreen \<and> timersFresh w \<longrightarrow>
      render (fire (nextTimer w) i (authStateChanged (worldOf (handleLogin res w)))) = Shell)"
proof -
  have a: "isFulfilled (handleLogin res w)
      \<and> currentUser (worldOf (handleLogin res w)) = Some u
      \<and> identities (worldOf (handleLogin res w)) = identities w" if "currentUser w = Some u"
    using that by (simp add: handleLogin_signed_in)
  have b: "isFulfilled (handleLogin res' (worldOf (handleLogin res w)))
      \<and> currentUser (worldOf (handleLogin res' (worldOf (handleLogin res w))))
          = currentUser (worldOf (handleLogin res w))
      \<and> identities (worldOf (handleLogin res' (worldOf (handleLogin res w))))
          = identities (worldOf (handleLogin res w))" if fl: "isFulfilled (handleLogin res w)"
  proof -
    obtain v where "currentUser (worldOf (handleLogin res w)) = Some v"
      by (rule handleLogin_cases [of w res]) (use fl in simp_all)
    then show ?thesis
      by (simp add: handleLogin_signed_in)
  qed
  have c: "render (fire (nextTimer w) i (authStateChanged (worldOf (handleLogin res w)))) = Shell"
    if "isFulfilled (handleLogin res w)" and "render w = LoginScreen" and "timersFresh w"
  proof -
    have al: "\<not> authLoading w"
      using that(2) by (auto simp: render_def split: if_splits)
    note m = map_of_fresh [OF that(3), of EnterDone]
    show ?thesis
      by (rule handleLogin_cases [of w res])
         (use that(1) al m in \<open>simp_all add: authStateChanged_def authListener_def Let_def
           fire_def render_def clearInterval_def\<close>)
  qed
  from a b c show ?thesis by blast
qed

theorem enter_reuses_identity_witness:
  "currentUser (mounted (Some ''u1'') (\<lambda>u. None) (\<lambda>u. [])\<lparr>authLoading := False\<rparr>) = Some ''u1''
   \<and> isFulfilled (handleLogin (Inr ''u2'') (mounted (Some ''u1'') (\<lambda>u. None) (\<lambda>u. [])\<lparr>authLoading := False\<rparr>))
   \<and> render (mounted (Some ''u1'') (\<lambda>u. None) (\<lambda>u. [])\<lparr>authLoading := False\<rparr>) = LoginScreen
   \<and> timersFresh (mounted (Some ''u1'') (\<lambda>u. None) (\<lambda>u. [])\<lparr>authLoading := False\<rparr>)
   \<and> identities (worldOf (handleLogin (Inr ''u2'')
        (mounted (Some ''u1'') (\<lambda>u. None) (\<lambda>u. [])\<lparr>authLoading := False\<rparr>))) = []
   \<and> currentUser (worldOf (handleLogin (Inr ''u2'')
        (mounted (Some ''u1'') (\<lambda>u. None) (\<lambda>u. [])\<lparr>authLoading := False\<rparr>))) = Some ''u1''
   \<and> render (fire 1 (sampleTick 0.7 0.5 True) (authStateChanged (worldOf (handleLogin (Inr ''u2'')
        (mounted (Some ''u1'') (\<lambda>u. None) (\<lambda>u. [])\<lparr>authLoading := False\<rparr>))))) = Shell
   \<and> identities (worldOf (handleLogin (Inr ''u3'') (worldOf (handleLogin (Inr ''u2'')
        (mounted None (\<lambda>u. None) (\<lambda>u. [])\<lparr>authLoading := False\<rparr>))))) = [''u2'']"
proof -
  let ?w = "mounted (Some ''u1'') (\<lambda>u. None) (\<lambda>u. [])\<lparr>authLoading := False\<rparr>"
  let ?v = "mounted None (\<lambda>u. None) (\<lambda>u. [])\<lparr>authLoading := False\<rparr>"
  have h: "currentUser ?w = Some ''u1''" "render ?w = LoginScreen" "timersFresh ?w"
    "nextTimer ?w = 1" "identities ?w = []"
    by (simp_all add: mounted_def render_def timersFresh_def)
  have f: "isFulfilled (handleLogin (Inr ''u2'') ?w)"
    using h(1) by (simp add: handleLogin_signed_in)
  have g: "isFulfilled (handleLogin (Inr ''u2'') ?v)"
    "identities (worldOf (handleLogin (Inr ''u2'') ?v)) = [''u2'']"
    by (simp_all add: handleLogin_signed_out mounted_def)
  show ?thesis
    using enter_reuses_identity [of ?w "''u1''" "Inr ''u2''" "Inr ''u3''" "sampleTick 0.7 0.5 True"]
      enter_reuses_identity [of ?v "''u1''" "Inr ''u2''" "Inr ''u3''" "sampleTick 0.7 0.5 True"]
      h f g
    by simp
qed

end
